theory Spec2Isabelle
  imports Main
begin

section \<open>Data model of package sqlproxy (driver.go)\<close>

text \<open>
  The package wraps the handles of Go's \<^verbatim>\<open>database/sql\<close> package and calls two
  optional hooks. Everything outside driver.go (the hooks, \<^verbatim>\<open>sql.Open\<close>,
  \<^verbatim>\<open>*sql.DB\<close>, \<^verbatim>\<open>*sql.Stmt\<close>, \<^verbatim>\<open>*sql.Rows\<close>) is a parameter of the model: a
  function on an external world \<open>'w\<close>. The code of driver.go is translated function
  by function.
\<close>

subsection \<open>Go values\<close>

text \<open>
  A Go \<^verbatim>\<open>error\<close> is \<open>error option\<close>, \<open>None\<close> being \<^verbatim>\<open>nil\<close>. \<open>EOF\<close> is the
  sentinel \<^verbatim>\<open>io.EOF\<close>; every other error is identified by its message.
\<close>

datatype error = EOF | Error string

type_synonym addr = nat

text \<open>
  \<^verbatim>\<open>driver.Value\<close> and \<^verbatim>\<open>interface{}\<close> are the same Go type: a box holding any
  value. The model has the values the code can meet: \<^verbatim>\<open>nil\<close>, scalars, a pointer to
  a memory cell, and a slice of boxes (a \<^verbatim>\<open>[]interface{}\<close> is itself a value that
  fits into an \<^verbatim>\<open>interface{}\<close>). A slice handed to code outside driver.go is
  given by its contents at the time of the call.
\<close>

datatype val =
    VNil
  | VInt int
  | VBool bool
  | VString string
  | VPtr addr
  | VSlice "val list"

text \<open>
  Slices that driver.go itself reads or writes live in memory: a slice is a pointer to
  its first cell and a length, cell \<open>idx\<close> of slice \<open>sl\<close> being the address
  \<open>ptr sl + idx\<close>.
\<close>

record slice =
  ptr :: addr
  len :: nat

type_synonym heap = "addr \<Rightarrow> val"

definition cells :: "slice \<Rightarrow> addr list" where
  "cells sl = [ptr sl ..< ptr sl + len sl]"

definition load :: "heap \<Rightarrow> slice \<Rightarrow> val list" where
  "load h sl = map h (cells sl)"

text \<open>The handles of \<^verbatim>\<open>database/sql\<close> are Go pointers; \<open>None\<close> is \<^verbatim>\<open>nil\<close>.\<close>

type_synonym sql_DB = "nat option"
type_synonym sql_Stmt = "nat option"
type_synonym sql_Rows = "nat option"
type_synonym sql_Tx = "nat option"
type_synonym sql_Result = "nat option"

subsection \<open>The calls that leave driver.go\<close>

text \<open>
  Every call from driver.go to a hook or to \<^verbatim>\<open>database/sql\<close> is recorded, with its
  arguments, in the order in which it is made.
\<close>

datatype event =
    CallSqlOpen string string
  | CallBeforePrepareHook string
  | CallBeforeQueryHook string "val list"
  | CallDBPrepare sql_DB string
  | CallDBClose sql_DB
  | CallDBBegin sql_DB
  | CallStmtClose sql_Stmt
  | CallStmtExec sql_Stmt "val list"
  | CallStmtQuery sql_Stmt "val list"
  | CallRowsColumns sql_Rows
  | CallRowsClose sql_Rows
  | CallRowsNext sql_Rows
  | CallRowsScan sql_Rows "val list"

record 'w state =
  heap :: heap
  brk :: addr
  world :: 'w
  trace :: "event list"

text \<open>
  \<open>brk\<close> is the first address that has not been allocated. \<open>world\<close> is whatever the
  hooks and the proxied driver act on (the database, a log).
\<close>

definition call :: "event \<Rightarrow> ('w \<Rightarrow> 'r \<times> 'w) \<Rightarrow> 'w state \<Rightarrow> 'r \<times> 'w state" where
  "call ev f s =
     (let (r, w') = f (world s)
      in (r, s\<lparr>world := w', trace := trace s @ [ev]\<rparr>))"

definition calls_since :: "'w state \<Rightarrow> 'w state \<Rightarrow> event list" where
  "calls_since s s' = drop (length (trace s)) (trace s')"

text \<open>
  The API of \<^verbatim>\<open>database/sql\<close> that driver.go uses. \<^verbatim>\<open>Rows.Scan\<close> stores the
  columns of the current row through the pointers it is given: it returns the stores
  it wants to make, and \<open>store_through\<close> below performs those whose address was
  passed to it as a pointer. \<^verbatim>\<open>Rows.Err\<close> is never called by driver.go; it is
  here because \<^verbatim>\<open>Rows.Next\<close> returns false both at the end of the rows and on an
  error, and only \<^verbatim>\<open>Rows.Err\<close> tells the two apart.
\<close>

record 'w env =
  sql_Open :: "string \<Rightarrow> string \<Rightarrow> 'w \<Rightarrow> (sql_DB \<times> error option) \<times> 'w"
  DB_Prepare :: "sql_DB \<Rightarrow> string \<Rightarrow> 'w \<Rightarrow> (sql_Stmt \<times> error option) \<times> 'w"
  DB_Close :: "sql_DB \<Rightarrow> 'w \<Rightarrow> error option \<times> 'w"
  DB_Begin :: "sql_DB \<Rightarrow> 'w \<Rightarrow> (sql_Tx \<times> error option) \<times> 'w"
  Stmt_Close :: "sql_Stmt \<Rightarrow> 'w \<Rightarrow> error option \<times> 'w"
  Stmt_Exec :: "sql_Stmt \<Rightarrow> val list \<Rightarrow> 'w \<Rightarrow> (sql_Result \<times> error option) \<times> 'w"
  Stmt_Query :: "sql_Stmt \<Rightarrow> val list \<Rightarrow> 'w \<Rightarrow> (sql_Rows \<times> error option) \<times> 'w"
  Rows_Columns :: "sql_Rows \<Rightarrow> 'w \<Rightarrow> (string list \<times> error option) \<times> 'w"
  Rows_Close :: "sql_Rows \<Rightarrow> 'w \<Rightarrow> error option \<times> 'w"
  Rows_Next :: "sql_Rows \<Rightarrow> 'w \<Rightarrow> bool \<times> 'w"
  Rows_Err :: "sql_Rows \<Rightarrow> 'w \<Rightarrow> error option"
  Rows_Scan :: "sql_Rows \<Rightarrow> val list \<Rightarrow> 'w \<Rightarrow> (error option \<times> (addr \<times> val) list) \<times> 'w"

fun store_through :: "val list \<Rightarrow> (addr \<times> val) list \<Rightarrow> heap \<Rightarrow> heap" where
  "store_through targets [] h = h"
| "store_through targets ((a, v) # ws) h =
     store_through targets ws (if VPtr a \<in> set targets then h(a := v) else h)"

subsection \<open>The structs of driver.go\<close>

text \<open>
  A hook is a Go function: it may act on the world. \<open>None\<close> is a hook left
  \<^verbatim>\<open>nil\<close>. \<^verbatim>\<open>BeforeQueryHook\<close> has no return value; it is given the
  argument slice by its contents, so a hook that overwrites elements of the slice it
  receives is outside the model.
\<close>

record 'w Driver =
  ProxiedDriverName :: string
  BeforePrepareHook :: "(string \<Rightarrow> 'w \<Rightarrow> (string \<times> error option) \<times> 'w) option"
  BeforeQueryHook :: "(string \<Rightarrow> val list \<Rightarrow> 'w \<Rightarrow> 'w) option"

record 'w connection =
  c_driver :: "'w Driver"
  c_db :: sql_DB

record 'w statement =
  s_driver :: "'w Driver"
  s_stmt :: sql_Stmt
  s_query :: string

record resultRows =
  r_rows :: sql_Rows

text \<open>\<^verbatim>\<open>Columns\<close> has no error result: it returns or panics.\<close>

datatype 'a outcome = Return 'a | Panic error

section \<open>The functions of driver.go\<close>

subsection \<open>utils\<close>

text \<open>\<^verbatim>\<open>make([]interface{}, n)\<close>: \<open>n\<close> fresh cells, each \<^verbatim>\<open>nil\<close>.\<close>

definition make :: "nat \<Rightarrow> 'w state \<Rightarrow> slice \<times> 'w state" where
  "make n s =
     (\<lparr>ptr = brk s, len = n\<rparr>,
      s\<lparr>heap := (\<lambda>a. if brk s \<le> a \<and> a < brk s + n then VNil else heap s a),
        brk := brk s + n\<rparr>)"

text \<open>
  The loop \<^verbatim>\<open>for idx, arg := range values { result[idx] = arg }\<close>, from index
  \<open>idx\<close> on. \<open>result\<close> is as long as \<open>values\<close>, so the store is always in range.
\<close>

function castValues_loop :: "slice \<Rightarrow> slice \<Rightarrow> nat \<Rightarrow> heap \<Rightarrow> heap" where
  "castValues_loop values result idx h =
     (if idx < len values
      then castValues_loop values result (Suc idx)
             (h(ptr result + idx := h (ptr values + idx)))
      else h)"
  by pat_completeness auto
termination
  by (relation "measure (\<lambda>(values, result, idx, h). len values - idx)") auto

declare castValues_loop.simps [simp del]

definition castValues :: "slice \<Rightarrow> 'w state \<Rightarrow> slice \<times> 'w state" where
  "castValues values s =
     (let (result, s1) = make (len values) s
      in (result, s1\<lparr>heap := castValues_loop values result 0 (heap s1)\<rparr>))"

subsection \<open>driver\<close>

definition Driver_Open ::
  "'w env \<Rightarrow> 'w Driver \<Rightarrow> string \<Rightarrow> 'w state
     \<Rightarrow> ('w connection option \<times> error option) \<times> 'w state" where
  "Driver_Open E d dataSource s =
     (let ((db, err), s1) =
            call (CallSqlOpen (ProxiedDriverName d) dataSource)
                 (sql_Open E (ProxiedDriverName d) dataSource) s
      in if err \<noteq> None then ((None, err), s1)
         else ((Some \<lparr>c_driver = d, c_db = db\<rparr>, None), s1))"

subsection \<open>connection\<close>

definition connection_Prepare ::
  "'w env \<Rightarrow> 'w connection \<Rightarrow> string \<Rightarrow> 'w state
     \<Rightarrow> ('w statement option \<times> error option) \<times> 'w state" where
  "connection_Prepare E c query s =
     (let ((query1, err1), s1) =
            (case BeforePrepareHook (c_driver c) of
               None \<Rightarrow> ((query, None), s)
             | Some hook \<Rightarrow> call (CallBeforePrepareHook query) (hook query) s)
      in if err1 \<noteq> None then ((None, err1), s1)
         else
           (let ((stmt, err), s2) =
                  call (CallDBPrepare (c_db c) query1) (DB_Prepare E (c_db c) query1) s1
            in ((Some \<lparr>s_driver = c_driver c, s_stmt = stmt, s_query = query1\<rparr>, err), s2)))"

definition connection_Close ::
  "'w env \<Rightarrow> 'w connection \<Rightarrow> 'w state \<Rightarrow> error option \<times> 'w state" where
  "connection_Close E c s = call (CallDBClose (c_db c)) (DB_Close E (c_db c)) s"

definition connection_Begin ::
  "'w env \<Rightarrow> 'w connection \<Rightarrow> 'w state \<Rightarrow> (sql_Tx \<times> error option) \<times> 'w state" where
  "connection_Begin E c s = call (CallDBBegin (c_db c)) (DB_Begin E (c_db c)) s"

subsection \<open>statement\<close>

definition statement_Close ::
  "'w env \<Rightarrow> 'w statement \<Rightarrow> 'w state \<Rightarrow> error option \<times> 'w state" where
  "statement_Close E st s = call (CallStmtClose (s_stmt st)) (Stmt_Close E (s_stmt st)) s"

definition statement_NumInput :: "'w statement \<Rightarrow> int" where
  "statement_NumInput st = - 1"

definition Driver_execBeforeQueryHook ::
  "'w Driver \<Rightarrow> string \<Rightarrow> slice \<Rightarrow> 'w state \<Rightarrow> 'w state" where
  "Driver_execBeforeQueryHook d query args s =
     (case BeforeQueryHook d of
        None \<Rightarrow> s
      | Some hook \<Rightarrow>
          snd (call (CallBeforeQueryHook query (load (heap s) args))
                    (\<lambda>w. ((), hook query (load (heap s) args) w)) s))"

text \<open>
  \<^verbatim>\<open>s.stmt.Exec(args)\<close> and \<^verbatim>\<open>s.stmt.Query(args)\<close>: both methods are variadic
  (\<^verbatim>\<open>args ...interface{}\<close>) and \<open>args\<close> is passed without \<^verbatim>\<open>...\<close>, so Go passes
  one argument, the slice \<open>args\<close> boxed as an \<^verbatim>\<open>interface{}\<close>.
\<close>

definition statement_Exec ::
  "'w env \<Rightarrow> 'w statement \<Rightarrow> slice \<Rightarrow> 'w state
     \<Rightarrow> (sql_Result \<times> error option) \<times> 'w state" where
  "statement_Exec E st values s =
     (let (args, s1) = castValues values s;
          s2 = Driver_execBeforeQueryHook (s_driver st) (s_query st) args s1;
          passed = [VSlice (load (heap s2) args)]
      in call (CallStmtExec (s_stmt st) passed) (Stmt_Exec E (s_stmt st) passed) s2)"

definition statement_Query ::
  "'w env \<Rightarrow> 'w statement \<Rightarrow> slice \<Rightarrow> 'w state
     \<Rightarrow> (resultRows option \<times> error option) \<times> 'w state" where
  "statement_Query E st values s =
     (let (args, s1) = castValues values s;
          s2 = Driver_execBeforeQueryHook (s_driver st) (s_query st) args s1;
          passed = [VSlice (load (heap s2) args)];
          ((rows, err), s3) =
            call (CallStmtQuery (s_stmt st) passed) (Stmt_Query E (s_stmt st) passed) s2
      in ((Some \<lparr>r_rows = rows\<rparr>, err), s3))"

subsection \<open>rows\<close>

definition resultRows_Columns ::
  "'w env \<Rightarrow> resultRows \<Rightarrow> 'w state \<Rightarrow> string list outcome \<times> 'w state" where
  "resultRows_Columns E r s =
     (let ((result, err), s1) =
            call (CallRowsColumns (r_rows r)) (Rows_Columns E (r_rows r)) s
      in case err of
           Some e \<Rightarrow> (Panic e, s1)
         | None \<Rightarrow> (Return result, s1))"

definition resultRows_Close ::
  "'w env \<Rightarrow> resultRows \<Rightarrow> 'w state \<Rightarrow> error option \<times> 'w state" where
  "resultRows_Close E r s = call (CallRowsClose (r_rows r)) (Rows_Close E (r_rows r)) s"

text \<open>
  \<^verbatim>\<open>r.rows.Scan(castValues(dest)...)\<close>: here the slice is spread, so \<^verbatim>\<open>Scan\<close>
  receives the elements of the copy as its scan targets.
\<close>

definition resultRows_Next ::
  "'w env \<Rightarrow> resultRows \<Rightarrow> slice \<Rightarrow> 'w state \<Rightarrow> error option \<times> 'w state" where
  "resultRows_Next E r dest s =
     (let (more, s1) = call (CallRowsNext (r_rows r)) (Rows_Next E (r_rows r)) s
      in if more
         then
           (let (targets, s2) = castValues dest s1;
                passed = load (heap s2) targets;
                ((err, stores), s3) =
                  call (CallRowsScan (r_rows r) passed) (Rows_Scan E (r_rows r) passed) s2
            in (err, s3\<lparr>heap := store_through passed stores (heap s3)\<rparr>))
         else (Some EOF, s1))"

section \<open>The caller of a statement: the argument count check of \<^verbatim>\<open>database/sql\<close>\<close>

text \<open>
  The methods of \<open>statement\<close> are called by Go's \<^verbatim>\<open>database/sql\<close>, which is not
  part of this repository. The definitions of this section follow the contract that
  \<^verbatim>\<open>database/sql/driver\<close> documents at \<^verbatim>\<open>Stmt.NumInput\<close>: if \<^verbatim>\<open>NumInput\<close>
  returns a number \<open>\<ge> 0\<close>, the sql package checks the argument count and returns an
  error to the caller before the statement's \<^verbatim>\<open>Exec\<close> or \<^verbatim>\<open>Query\<close> is called;
  if it returns \<open>-1\<close>, the sql package does not check. In \<^verbatim>\<open>database/sql\<close> the test
  is \<^verbatim>\<open>want != -1 && len(args) != want\<close> and the error is
  \<^verbatim>\<open>fmt.Errorf("sql: expected %d arguments, got %d", want, len(args))\<close>.
\<close>

function show_nat :: "nat \<Rightarrow> string" where
  "show_nat n =
     (if n < 10 then [''0123456789'' ! n]
      else show_nat (n div 10) @ [''0123456789'' ! (n mod 10)])"
  by pat_completeness auto
termination
  by (relation "measure id") auto

declare show_nat.simps [simp del]

definition show_int :: "int \<Rightarrow> string" where
  "show_int i = (if i < 0 then ''-'' @ show_nat (nat (- i)) else show_nat (nat i))"

definition sql_count_check :: "int \<Rightarrow> nat \<Rightarrow> error option" where
  "sql_count_check want n =
     (if want \<noteq> - 1 \<and> int n \<noteq> want
      then Some (Error (''sql: expected '' @ show_int want @ '' arguments, got '' @ show_nat n))
      else None)"

text \<open>
  \<^verbatim>\<open>database/sql\<close> executing a statement of this driver: the count check against
  \<^verbatim>\<open>NumInput\<close>, then the statement's \<^verbatim>\<open>Exec\<close> (or \<^verbatim>\<open>Query\<close>).
\<close>

definition sql_resultFromStatement ::
  "'w env \<Rightarrow> 'w statement \<Rightarrow> slice \<Rightarrow> 'w state
     \<Rightarrow> (sql_Result \<times> error option) \<times> 'w state" where
  "sql_resultFromStatement E st args s =
     (case sql_count_check (statement_NumInput st) (len args) of
        Some e \<Rightarrow> ((None, Some e), s)
      | None \<Rightarrow> statement_Exec E st args s)"

definition sql_rowsiFromStatement ::
  "'w env \<Rightarrow> 'w statement \<Rightarrow> slice \<Rightarrow> 'w state
     \<Rightarrow> (resultRows option \<times> error option) \<times> 'w state" where
  "sql_rowsiFromStatement E st args s =
     (case sql_count_check (statement_NumInput st) (len args) of
        Some e \<Rightarrow> ((None, Some e), s)
      | None \<Rightarrow> statement_Query E st args s)"

section \<open>Sample inputs\<close>

text \<open>
  Concrete hooks, a concrete proxied driver and a concrete memory, on which the
  theorems below are instantiated. The world of the samples is the log that
  \<open>record_hook\<close> keeps.
\<close>

definition select_one_hook :: "string \<Rightarrow> 'w \<Rightarrow> (string \<times> error option) \<times> 'w" where
  "select_one_hook query w = ((''SELECT 1'', None), w)"

definition reject_hook :: "string \<Rightarrow> 'w \<Rightarrow> (string \<times> error option) \<times> 'w" where
  "reject_hook query w = ((query, Some (Error ''query rejected'')), w)"

type_synonym hook_log = "(string \<times> val list) list"

definition record_hook :: "string \<Rightarrow> val list \<Rightarrow> hook_log \<Rightarrow> hook_log" where
  "record_hook query args w = w @ [(query, args)]"

fun is_slice :: "val \<Rightarrow> bool" where
  "is_slice (VSlice vs) = True"
| "is_slice v = False"

fun is_pointer :: "val \<Rightarrow> bool" where
  "is_pointer (VPtr a) = True"
| "is_pointer v = False"

fun scan_stores :: "val list \<Rightarrow> val list \<Rightarrow> (addr \<times> val) list" where
  "scan_stores (VPtr a # targets) (v # row) = (a, v) # scan_stores targets row"
| "scan_stores targets row = []"

definition sample_env :: "hook_log env" where
  "sample_env =
     \<lparr>sql_Open = (\<lambda>name dataSource w. ((Some 0, None), w)),
      DB_Prepare = (\<lambda>db query w.
         if query = [] then ((None, Some (Error ''empty query'')), w)
         else ((Some 1, None), w)),
      DB_Close = (\<lambda>db w. (None, w)),
      DB_Begin = (\<lambda>db w. ((Some 0, None), w)),
      Stmt_Close = (\<lambda>stmt w. (None, w)),
      Stmt_Exec = (\<lambda>stmt args w.
         if list_ex is_slice args
         then ((None, Some (Error ''unsupported type []interface {}, a slice of interface'')), w)
         else ((Some (length args), None), w)),
      Stmt_Query = (\<lambda>stmt args w.
         if list_ex is_slice args
         then ((None, Some (Error ''unsupported type []interface {}, a slice of interface'')), w)
         else ((Some (length args), None), w)),
      Rows_Columns = (\<lambda>rows w. (([''x'', ''id''], None), w)),
      Rows_Close = (\<lambda>rows w. (None, w)),
      Rows_Next = (\<lambda>rows w. (True, w)),
      Rows_Err = (\<lambda>rows w. None),
      Rows_Scan = (\<lambda>rows targets w.
         if length targets \<noteq> 2 then ((Some (Error ''expected 2 destination arguments in Scan''), []), w)
         else if list_all is_pointer targets
         then ((None, scan_stores targets [VInt 5, VInt 1]), w)
         else ((Some (Error ''destination not a pointer''), []), w))\<rparr>"

definition sample_driver ::
  "(string \<Rightarrow> hook_log \<Rightarrow> (string \<times> error option) \<times> hook_log) option
     \<Rightarrow> (string \<Rightarrow> val list \<Rightarrow> hook_log \<Rightarrow> hook_log) option \<Rightarrow> hook_log Driver" where
  "sample_driver prepare_hook query_hook =
     \<lparr>ProxiedDriverName = ''postgresql'',
      BeforePrepareHook = prepare_hook,
      BeforeQueryHook = query_hook\<rparr>"

definition sample_state :: "hook_log state" where
  "sample_state = \<lparr>heap = (\<lambda>a. VNil)(0 := VInt 5, 1 := VInt 1), brk = 2, world = [], trace = []\<rparr>"


definition failing_env :: "hook_log env" where
  "failing_env =
     \<lparr>sql_Open = (\<lambda>name dataSource w. ((None, Some (Error ''unknown driver'')), w)),
      DB_Prepare = (\<lambda>db query w. ((None, Some (Error ''syntax error'')), w)),
      DB_Close = (\<lambda>db w. (Some (Error ''close failed''), w)),
      DB_Begin = (\<lambda>db w. ((None, Some (Error ''begin failed'')), w)),
      Stmt_Close = (\<lambda>stmt w. (Some (Error ''statement is closed''), w)),
      Stmt_Exec = (\<lambda>stmt args w. ((None, Some (Error ''exec failed'')), w)),
      Stmt_Query = (\<lambda>stmt args w. ((None, Some (Error ''query failed'')), w)),
      Rows_Columns = (\<lambda>rows w. (([], Some (Error ''Rows are closed'')), w)),
      Rows_Close = (\<lambda>rows w. (Some (Error ''rows close failed''), w)),
      Rows_Next = (\<lambda>rows w. (False, w)),
      Rows_Err = (\<lambda>rows w. Some (Error ''connection reset'')),
      Rows_Scan = (\<lambda>rows targets w. ((Some (Error ''Scan called without calling Next''), []), w))\<rparr>"

definition sample_conn ::
  "(string \<Rightarrow> hook_log \<Rightarrow> (string \<times> error option) \<times> hook_log) option
     \<Rightarrow> hook_log connection" where
  "sample_conn prepare_hook = \<lparr>c_driver = sample_driver prepare_hook None, c_db = Some 0\<rparr>"

definition sample_stmt ::
  "(string \<Rightarrow> val list \<Rightarrow> hook_log \<Rightarrow> hook_log) option \<Rightarrow> hook_log statement" where
  "sample_stmt query_hook =
     \<lparr>s_driver = sample_driver None query_hook, s_stmt = Some 1,
      s_query = ''UPDATE t SET x=? WHERE id=?''\<rparr>"

definition sample_args :: slice where
  "sample_args = \<lparr>ptr = 0, len = 2\<rparr>"

text \<open>
  Preparing and executing against \<^verbatim>\<open>database/sql\<close> directly, as a caller without
  the proxy does: \<^verbatim>\<open>stmt, err := db.Prepare(query)\<close>, then
  \<^verbatim>\<open>stmt.Exec(args...)\<close>.
\<close>

definition direct_Prepare_Exec ::
  "'w env \<Rightarrow> sql_DB \<Rightarrow> string \<Rightarrow> val list \<Rightarrow> 'w
     \<Rightarrow> (sql_Result \<times> error option) \<times> 'w" where
  "direct_Prepare_Exec E db query args w =
     (let ((stmt, err), w1) = DB_Prepare E db query w
      in if err \<noteq> None then ((None, err), w1) else Stmt_Exec E stmt args w1)"

text \<open>The same through the proxy: \<^verbatim>\<open>Prepare\<close>, then \<^verbatim>\<open>Exec\<close> on its statement.\<close>

definition proxy_Prepare_Exec ::
  "'w env \<Rightarrow> 'w connection \<Rightarrow> string \<Rightarrow> slice \<Rightarrow> 'w state
     \<Rightarrow> (sql_Result \<times> error option) \<times> 'w state" where
  "proxy_Prepare_Exec E c query values s =
     (case connection_Prepare E c query s of
        ((Some st, None), s1) \<Rightarrow> statement_Exec E st values s1
      | ((st, err), s1) \<Rightarrow> ((None, err), s1))"

definition sample_rows :: resultRows where
  "sample_rows = \<lparr>r_rows = Some 0\<rparr>"

text \<open>A destination buffer whose two elements are pointers to the cells 2 and 3.\<close>

definition pointer_state :: "hook_log state" where
  "pointer_state =
     \<lparr>heap = (\<lambda>a. VNil)(0 := VPtr 2, 1 := VPtr 3), brk = 4, world = [], trace = []\<rparr>"

text \<open>
  A destination buffer whose first element is a pointer to its own second cell:
  \<^verbatim>\<open>dest[0] = &dest[1]\<close>; the second element points to cell 2.
\<close>

definition alias_state :: "hook_log state" where
  "alias_state =
     \<lparr>heap = (\<lambda>a. VNil)(0 := VPtr 1, 1 := VPtr 2), brk = 3, world = [], trace = []\<rparr>"

section \<open>Memory: what \<open>castValues\<close> does\<close>

lemma castValues_loop_frame:
  "a < ptr result \<or> ptr result + len values \<le> a \<Longrightarrow>
     castValues_loop values result idx h a = h a"
proof (induction "values" result idx h rule: castValues_loop.induct)
  case (1 vs res idx h)
  show ?case
  proof (cases "idx < len vs")
    case True
    let ?h = "h(ptr res + idx := h (ptr vs + idx))"
    have "castValues_loop vs res idx h a = castValues_loop vs res (Suc idx) ?h a"
      using True by (subst castValues_loop.simps) simp
    also have "\<dots> = ?h a"
      using "1.IH" [OF True "1.prems"] .
    also have "\<dots> = h a"
      using "1.prems" True by auto
    finally show ?thesis .
  next
    case False
    then show ?thesis by (subst castValues_loop.simps) simp
  qed
qed

lemma castValues_loop_copy:
  "ptr values + len values \<le> ptr result \<Longrightarrow> i < len values \<Longrightarrow>
     castValues_loop values result idx h (ptr result + i) =
       (if idx \<le> i then h (ptr values + i) else h (ptr result + i))"
proof (induction "values" result idx h rule: castValues_loop.induct)
  case (1 vs res idx h)
  show ?case
  proof (cases "idx < len vs")
    case True
    let ?h = "h(ptr res + idx := h (ptr vs + idx))"
    have "castValues_loop vs res idx h (ptr res + i) =
            castValues_loop vs res (Suc idx) ?h (ptr res + i)"
      using True by (subst castValues_loop.simps) simp
    also have "\<dots> = (if Suc idx \<le> i then ?h (ptr vs + i) else ?h (ptr res + i))"
      using "1.IH" [OF True "1.prems"] .
    also have "\<dots> = (if idx \<le> i then h (ptr vs + i) else h (ptr res + i))"
      using "1.prems" True by (cases "i = idx") auto
    finally show ?thesis .
  next
    case False
    with 1 show ?thesis by (subst castValues_loop.simps) simp
  qed
qed

lemma castValues_brk: "brk (snd (castValues values s)) = brk s + len values"
  by (simp add: castValues_def make_def)

lemma castValues_world: "world (snd (castValues values s)) = world s"
  by (simp add: castValues_def make_def)

lemma castValues_trace: "trace (snd (castValues values s)) = trace s"
  by (simp add: castValues_def make_def)

lemma castValues_frame: "a < brk s \<Longrightarrow> heap (snd (castValues values s)) a = heap s a"
  by (simp add: castValues_def make_def castValues_loop_frame)

lemma castValues_copy:
  assumes "ptr values + len values \<le> brk s"
  shows "load (heap (snd (castValues values s))) (fst (castValues values s)) = load (heap s) values"
proof -
  let ?result = "\<lparr>ptr = brk s, len = len values\<rparr>"
  let ?h1 = "\<lambda>a. if brk s \<le> a \<and> a < brk s + len values then VNil else heap s a"
  have "castValues_loop values ?result 0 ?h1 (brk s + i) = heap s (ptr values + i)"
    if "i < len values" for i
    using castValues_loop_copy [of "values" ?result i 0 ?h1] assms that by simp
  then show ?thesis
    by (auto simp: castValues_def make_def load_def cells_def intro!: nth_equalityI)
qed

lemma castValues_result: "fst (castValues values s) = \<lparr>ptr = brk s, len = len values\<rparr>"
  by (simp add: castValues_def make_def)

lemma castValues_fresh:
  assumes "ptr values + len values \<le> brk s" and "i < len values"
  shows "heap (snd (castValues values s)) (brk s + i) = heap s (ptr values + i)"
proof -
  let ?result = "\<lparr>ptr = brk s, len = len values\<rparr>"
  let ?h1 = "\<lambda>a. if brk s \<le> a \<and> a < brk s + len values then VNil else heap s a"
  have "castValues_loop values ?result 0 ?h1 (brk s + i) = heap s (ptr values + i)"
    using castValues_loop_copy [of "values" ?result i 0 ?h1] assms by simp
  then show ?thesis
    by (simp add: castValues_def make_def)
qed

lemma call_alt:
  "call ev f s = (fst (f (world s)), s\<lparr>world := snd (f (world s)), trace := trace s @ [ev]\<rparr>)"
  by (simp add: call_def split: prod.splits)

lemma castValues_cases:
  assumes "ptr values + len values \<le> brk s"
  obtains args s1 where "castValues values s = (args, s1)"
    and "load (heap s1) args = load (heap s) values"
    and "world s1 = world s" and "trace s1 = trace s"
    and "brk s1 = brk s + len values"
    and "\<forall>a<brk s. heap s1 a = heap s a"
proof
  show "castValues values s = (fst (castValues values s), snd (castValues values s))"
    by simp
  show "load (heap (snd (castValues values s))) (fst (castValues values s)) =
          load (heap s) values"
    by (rule castValues_copy [OF assms])
  show "world (snd (castValues values s)) = world s"
    by (rule castValues_world)
  show "trace (snd (castValues values s)) = trace s"
    by (rule castValues_trace)
  show "brk (snd (castValues values s)) = brk s + len values"
    by (rule castValues_brk)
  show "\<forall>a<brk s. heap (snd (castValues values s)) a = heap s a"
    by (simp add: castValues_frame)
qed

lemma sample_load: "load (heap sample_state) sample_args = [VInt 5, VInt 1]"
  by (simp add: load_def cells_def sample_state_def sample_args_def)

lemma sample_allocated: "ptr sample_args + len sample_args \<le> brk sample_state"
  by (simp add: sample_state_def sample_args_def)

lemma pointer_load: "load (heap pointer_state) sample_args = [VPtr 2, VPtr 3]"
  by (simp add: load_def cells_def pointer_state_def sample_args_def)

lemma pointer_allocated: "ptr sample_args + len sample_args \<le> brk pointer_state"
  by (simp add: pointer_state_def sample_args_def)

lemma alias_load: "load (heap alias_state) sample_args = [VPtr 1, VPtr 2]"
  by (simp add: load_def cells_def alias_state_def sample_args_def)

lemma alias_allocated: "ptr sample_args + len sample_args \<le> brk alias_state"
  by (simp add: alias_state_def sample_args_def)

lemma store_through_pointwise:
  "h a = h' a \<Longrightarrow> store_through targets ws h a = store_through targets ws h' a"
proof (induction ws arbitrary: h h')
  case Nil
  then show ?case by simp
next
  case (Cons w ws)
  obtain a0 v where w: "w = (a0, v)"
    by (cases w)
  let ?upd = "\<lambda>g. if VPtr a0 \<in> set targets then g(a0 := v) else g"
  have "?upd h a = ?upd h' a"
    using Cons.prems by simp
  then have "store_through targets ws (?upd h) a = store_through targets ws (?upd h') a"
    by (rule Cons.IH)
  then show ?case
    by (simp add: w)
qed

lemma store_through_frame:
  "VPtr a \<notin> set targets \<Longrightarrow> store_through targets ws h a = h a"
proof (induction ws arbitrary: h)
  case Nil
  then show ?case by simp
next
  case (Cons w ws)
  obtain a0 v where w: "w = (a0, v)"
    by (cases w)
  let ?h = "if VPtr a0 \<in> set targets then h(a0 := v) else h"
  have "store_through targets ws ?h a = ?h a"
    using Cons.prems by (rule Cons.IH)
  moreover have "?h a = h a"
    using Cons.prems by auto
  ultimately show ?case
    by (simp add: w)
qed

section \<open>What each function calls and returns\<close>

lemma Open_result:
  "snd (fst (Driver_Open E d dataSource s)) =
     snd (fst (sql_Open E (ProxiedDriverName d) dataSource (world s)))"
  by (simp add: Driver_Open_def call_def split: prod.splits)

lemma Prepare_without_hook:
  assumes "BeforePrepareHook (c_driver c) = None"
  shows "connection_Prepare E c query s =
           ((Some \<lparr>s_driver = c_driver c,
                    s_stmt = fst (fst (DB_Prepare E (c_db c) query (world s))),
                    s_query = query\<rparr>,
             snd (fst (DB_Prepare E (c_db c) query (world s)))),
            s\<lparr>world := snd (DB_Prepare E (c_db c) query (world s)),
              trace := trace s @ [CallDBPrepare (c_db c) query]\<rparr>)"
  using assms by (simp add: connection_Prepare_def call_def split: prod.splits)

lemma Prepare_hook_ok:
  assumes "BeforePrepareHook (c_driver c) = Some hook"
    and "hook query (world s) = ((q1, None), w1)"
  shows "snd (fst (connection_Prepare E c query s)) = snd (fst (DB_Prepare E (c_db c) q1 w1))"
  using assms by (simp add: connection_Prepare_def call_def split: prod.splits)

lemma Prepare_hook_fails:
  assumes "BeforePrepareHook (c_driver c) = Some hook"
    and "hook query (world s) = ((q1, Some e), w1)"
  shows "snd (fst (connection_Prepare E c query s)) = Some e"
  using assms by (simp add: connection_Prepare_def call_def split: prod.splits)

lemma Close_results:
  "fst (connection_Close E c s) = fst (DB_Close E (c_db c) (world s))"
  "fst (connection_Begin E c s) = fst (DB_Begin E (c_db c) (world s))"
  "fst (statement_Close E st s) = fst (Stmt_Close E (s_stmt st) (world s))"
  "fst (resultRows_Close E r s) = fst (Rows_Close E (r_rows r) (world s))"
  by (simp_all add: connection_Close_def connection_Begin_def statement_Close_def
      resultRows_Close_def call_def split: prod.splits)

lemma Exec_result:
  assumes "ptr values + len values \<le> brk s"
  shows "fst (statement_Exec E st values s) =
           fst (Stmt_Exec E (s_stmt st) [VSlice (load (heap s) values)]
                  (world (Driver_execBeforeQueryHook (s_driver st) (s_query st) values s)))"
proof -
  from assms obtain args s1 where cv: "castValues values s = (args, s1)"
    and ld: "load (heap s1) args = load (heap s) values"
    and w: "world s1 = world s"
    by (rule castValues_cases)
  show ?thesis
    using ld w
    by (simp add: statement_Exec_def cv Driver_execBeforeQueryHook_def call_alt Let_def
        split: option.splits)
qed

lemma Query_result:
  assumes "ptr values + len values \<le> brk s"
  shows "fst (statement_Query E st values s) =
           (Some \<lparr>r_rows = fst (fst (Stmt_Query E (s_stmt st) [VSlice (load (heap s) values)]
                  (world (Driver_execBeforeQueryHook (s_driver st) (s_query st) values s))))\<rparr>,
            snd (fst (Stmt_Query E (s_stmt st) [VSlice (load (heap s) values)]
                  (world (Driver_execBeforeQueryHook (s_driver st) (s_query st) values s)))))"
proof -
  from assms obtain args s1 where cv: "castValues values s = (args, s1)"
    and ld: "load (heap s1) args = load (heap s) values"
    and w: "world s1 = world s"
    by (rule castValues_cases)
  show ?thesis
    using ld w
    by (simp add: statement_Query_def cv Driver_execBeforeQueryHook_def call_alt Let_def
        case_prod_beta split: option.splits)
qed

lemma Exec_calls_without_hook:
  assumes "BeforeQueryHook (s_driver st) = None"
    and "ptr values + len values \<le> brk s"
  shows "calls_since s (snd (statement_Exec E st values s)) =
           [CallStmtExec (s_stmt st) [VSlice (load (heap s) values)]]"
proof -
  from assms(2) obtain args s1 where cv: "castValues values s = (args, s1)"
    and ld: "load (heap s1) args = load (heap s) values"
    and tr: "trace s1 = trace s"
    by (rule castValues_cases)
  show ?thesis
    using assms(1) ld tr
    by (simp add: statement_Exec_def cv Driver_execBeforeQueryHook_def call_alt
        calls_since_def Let_def)
qed

lemma Columns_panics:
  assumes "Rows_Columns E (r_rows r) (world s) = ((cols, Some e), w1)"
  shows "fst (resultRows_Columns E r s) = Panic e"
  using assms by (simp add: resultRows_Columns_def call_def)

lemma Next_without_row:
  assumes "fst (Rows_Next E (r_rows r) (world s)) = False"
  shows "fst (resultRows_Next E r dest s) = Some EOF"
  using assms by (simp add: resultRows_Next_def call_alt case_prod_beta)

lemma Next_with_row:
  assumes "ptr dest + len dest \<le> brk s"
    and "Rows_Next E (r_rows r) (world s) = (True, w1)"
  shows "fst (resultRows_Next E r dest s) =
           fst (fst (Rows_Scan E (r_rows r) (load (heap s) dest) w1))"
    and "calls_since s (snd (resultRows_Next E r dest s)) =
           [CallRowsNext (r_rows r), CallRowsScan (r_rows r) (load (heap s) dest)]"
    and "a < brk s \<Longrightarrow>
         heap (snd (resultRows_Next E r dest s)) a =
           store_through (load (heap s) dest)
             (snd (fst (Rows_Scan E (r_rows r) (load (heap s) dest) w1))) (heap s) a"
    and "brk (snd (resultRows_Next E r dest s)) = brk s + len dest"
    and "i < len dest \<Longrightarrow> VPtr (brk s + i) \<notin> set (load (heap s) dest) \<Longrightarrow>
         heap (snd (resultRows_Next E r dest s)) (brk s + i) = heap s (ptr dest + i)"
proof -
  let ?s1 = "s\<lparr>world := w1, trace := trace s @ [CallRowsNext (r_rows r)]\<rparr>"
  have alloc1: "ptr dest + len dest \<le> brk ?s1"
    using assms(1) by simp
  then obtain targets s2 where cv: "castValues dest ?s1 = (targets, s2)"
    and ld: "load (heap s2) targets = load (heap ?s1) dest"
    and w: "world s2 = world ?s1" and tr: "trace s2 = trace ?s1"
    and bk: "brk s2 = brk ?s1 + len dest"
    and fr: "\<forall>a<brk ?s1. heap s2 a = heap ?s1 a"
    by (rule castValues_cases)
  show "brk (snd (resultRows_Next E r dest s)) = brk s + len dest"
    using assms(2) bk
    by (simp add: resultRows_Next_def call_alt cv Let_def case_prod_beta)
  show "heap (snd (resultRows_Next E r dest s)) (brk s + i) = heap s (ptr dest + i)"
    if "i < len dest" and "VPtr (brk s + i) \<notin> set (load (heap s) dest)"
  proof -
    have "heap (snd (castValues dest ?s1)) (brk ?s1 + i) = heap ?s1 (ptr dest + i)"
      using alloc1 that(1) by (rule castValues_fresh)
    then have copy: "heap s2 (brk s + i) = heap s (ptr dest + i)"
      by (simp add: cv)
    have "load (heap s2) targets = load (heap s) dest"
      using ld by simp
    then have "heap (snd (resultRows_Next E r dest s)) (brk s + i) =
        store_through (load (heap s) dest)
          (snd (fst (Rows_Scan E (r_rows r) (load (heap s) dest) w1))) (heap s2) (brk s + i)"
      using assms(2) w
      by (simp add: resultRows_Next_def call_alt cv Let_def case_prod_beta)
    also have "\<dots> = heap s2 (brk s + i)"
      using that(2) by (rule store_through_frame)
    finally show ?thesis
      using copy by simp
  qed
  have ld': "load (heap s2) targets = load (heap s) dest"
    using ld by simp
  show "fst (resultRows_Next E r dest s) =
          fst (fst (Rows_Scan E (r_rows r) (load (heap s) dest) w1))"
    using assms(2) ld' w
    by (simp add: resultRows_Next_def call_alt cv Let_def case_prod_beta)
  show "calls_since s (snd (resultRows_Next E r dest s)) =
          [CallRowsNext (r_rows r), CallRowsScan (r_rows r) (load (heap s) dest)]"
    using assms(2) ld' w tr
    by (simp add: resultRows_Next_def call_alt calls_since_def cv Let_def case_prod_beta)
  show "heap (snd (resultRows_Next E r dest s)) a =
          store_through (load (heap s) dest)
            (snd (fst (Rows_Scan E (r_rows r) (load (heap s) dest) w1))) (heap s) a"
    if "a < brk s"
  proof -
    have "heap s2 a = heap s a"
      using fr that by simp
    then show ?thesis
      using assms(2) ld' w
      by (simp add: resultRows_Next_def call_alt cv Let_def case_prod_beta
          store_through_pointwise [of "heap s2" a "heap s"])
  qed
qed

lemma sql_count_check_mismatch:
  "0 \<le> want \<Longrightarrow> int n \<noteq> want \<Longrightarrow>
     sql_count_check want n =
       Some (Error (''sql: expected '' @ show_int want @ '' arguments, got '' @ show_nat n))"
  by (auto simp: sql_count_check_def)

section \<open>Properties\<close>

text \<open>
  C1. When a pre-prepare hook is configured and returns a text without error,
  \<^verbatim>\<open>Prepare\<close> calls the hook with the original text and then the proxied
  \<^verbatim>\<open>db.Prepare\<close> once, with the returned text; no call of \<^verbatim>\<open>db.Prepare\<close>
  carries any other text; and the statement returned keeps the returned text in
  its \<open>query\<close> field, next to whatever \<^verbatim>\<open>db.Prepare\<close> returned.
\<close>

theorem Prepare_forwards_rewritten_text:
  assumes "BeforePrepareHook (c_driver c) = Some hook"
    and "hook query (world s) = ((query', None), w1)"
  shows "calls_since s (snd (connection_Prepare E c query s)) =
           [CallBeforePrepareHook query, CallDBPrepare (c_db c) query'] \<and>
         fst (connection_Prepare E c query s) =
           (Some \<lparr>s_driver = c_driver c,
                   s_stmt = fst (fst (DB_Prepare E (c_db c) query' w1)),
                   s_query = query'\<rparr>,
            snd (fst (DB_Prepare E (c_db c) query' w1))) \<and>
         (\<forall>db q. CallDBPrepare db q \<in> set (calls_since s (snd (connection_Prepare E c query s)))
             \<longrightarrow> q = query')"
  using assms
  by (simp add: connection_Prepare_def call_def calls_since_def split: prod.splits)

theorem Prepare_forwards_rewritten_text_witness:
  "calls_since sample_state
     (snd (connection_Prepare sample_env (sample_conn (Some select_one_hook))
             ''SELECT * FROM t'' sample_state)) =
     [CallBeforePrepareHook ''SELECT * FROM t'', CallDBPrepare (Some 0) ''SELECT 1''] \<and>
   map_option s_query
     (fst (fst (connection_Prepare sample_env (sample_conn (Some select_one_hook))
                  ''SELECT * FROM t'' sample_state))) = Some ''SELECT 1''"
proof -
  let ?c = "sample_conn (Some select_one_hook)"
  have hook: "BeforePrepareHook (c_driver ?c) = Some select_one_hook"
    by (simp add: sample_conn_def sample_driver_def)
  have run: "select_one_hook ''SELECT * FROM t'' (world sample_state) = ((''SELECT 1'', None), [])"
    by (simp add: select_one_hook_def sample_state_def)
  have "calls_since sample_state
          (snd (connection_Prepare sample_env ?c ''SELECT * FROM t'' sample_state)) =
          [CallBeforePrepareHook ''SELECT * FROM t'', CallDBPrepare (c_db ?c) ''SELECT 1'']"
    and "fst (connection_Prepare sample_env ?c ''SELECT * FROM t'' sample_state) =
           (Some \<lparr>s_driver = c_driver ?c,
                   s_stmt = fst (fst (DB_Prepare sample_env (c_db ?c) ''SELECT 1'' [])),
                   s_query = ''SELECT 1''\<rparr>,
            snd (fst (DB_Prepare sample_env (c_db ?c) ''SELECT 1'' [])))"
    using Prepare_forwards_rewritten_text [OF hook run, of sample_env] by blast+
  then show ?thesis by (simp add: sample_conn_def)
qed

text \<open>
  C2. When the pre-prepare hook returns an error, \<^verbatim>\<open>Prepare\<close> returns no statement
  and that error, and the hook is the only call it has made: the proxied
  \<^verbatim>\<open>db.Prepare\<close> is not called.
\<close>

theorem Prepare_hook_error:
  assumes "BeforePrepareHook (c_driver c) = Some hook"
    and "hook query (world s) = ((query', Some e), w1)"
  shows "fst (connection_Prepare E c query s) = (None, Some e) \<and>
         calls_since s (snd (connection_Prepare E c query s)) = [CallBeforePrepareHook query] \<and>
         world (snd (connection_Prepare E c query s)) = w1"
  using assms
  by (simp add: connection_Prepare_def call_def calls_since_def split: prod.splits)

theorem Prepare_hook_error_witness:
  "fst (connection_Prepare sample_env (sample_conn (Some reject_hook))
          ''DROP TABLE t'' sample_state) = (None, Some (Error ''query rejected'')) \<and>
   calls_since sample_state
     (snd (connection_Prepare sample_env (sample_conn (Some reject_hook))
             ''DROP TABLE t'' sample_state)) = [CallBeforePrepareHook ''DROP TABLE t'']"
proof -
  have hook: "BeforePrepareHook (c_driver (sample_conn (Some reject_hook))) = Some reject_hook"
    by (simp add: sample_conn_def sample_driver_def)
  have run: "reject_hook ''DROP TABLE t'' (world sample_state) =
               ((''DROP TABLE t'', Some (Error ''query rejected'')), [])"
    by (simp add: reject_hook_def sample_state_def)
  show ?thesis
    using Prepare_hook_error [OF hook run, of sample_env] by simp
qed

text \<open>
  C3. When a pre-execute hook is configured, \<^verbatim>\<open>Exec\<close> and \<^verbatim>\<open>Query\<close> each
  make exactly two calls: first the hook, once, with the statement's retained query
  text and the caller's argument values element for element, then the proxied
  statement. The proxied statement runs in the world the hook has left, and what it
  returns and leaves is what the caller gets.
\<close>

theorem hook_once_before_driver:
  assumes "BeforeQueryHook (s_driver st) = Some hook"
    and "ptr values + len values \<le> brk s"
  shows "calls_since s (snd (statement_Exec E st values s)) =
           [CallBeforeQueryHook (s_query st) (load (heap s) values),
            CallStmtExec (s_stmt st) [VSlice (load (heap s) values)]] \<and>
         (fst (statement_Exec E st values s), world (snd (statement_Exec E st values s))) =
           Stmt_Exec E (s_stmt st) [VSlice (load (heap s) values)]
             (hook (s_query st) (load (heap s) values) (world s)) \<and>
         calls_since s (snd (statement_Query E st values s)) =
           [CallBeforeQueryHook (s_query st) (load (heap s) values),
            CallStmtQuery (s_stmt st) [VSlice (load (heap s) values)]] \<and>
         (snd (fst (statement_Query E st values s)),
          world (snd (statement_Query E st values s))) =
           (snd (fst (Stmt_Query E (s_stmt st) [VSlice (load (heap s) values)]
                        (hook (s_query st) (load (heap s) values) (world s)))),
            snd (Stmt_Query E (s_stmt st) [VSlice (load (heap s) values)]
                        (hook (s_query st) (load (heap s) values) (world s))))"
proof -
  from assms(2) obtain args s1 where cv: "castValues values s = (args, s1)"
    and ld: "load (heap s1) args = load (heap s) values"
    and w: "world s1 = world s" and tr: "trace s1 = trace s"
    by (rule castValues_cases)
  show ?thesis
    using assms(1) ld w tr
    by (simp add: statement_Exec_def statement_Query_def cv Driver_execBeforeQueryHook_def
        call_alt calls_since_def Let_def case_prod_beta)
qed

theorem hook_once_before_driver_witness:
  "calls_since sample_state
       (snd (statement_Exec sample_env (sample_stmt (Some record_hook)) sample_args sample_state)) =
     [CallBeforeQueryHook ''UPDATE t SET x=? WHERE id=?'' [VInt 5, VInt 1],
      CallStmtExec (Some 1) [VSlice [VInt 5, VInt 1]]] \<and>
   world (snd (statement_Exec sample_env (sample_stmt (Some record_hook)) sample_args
                 sample_state)) =
     [(''UPDATE t SET x=? WHERE id=?'', [VInt 5, VInt 1])] \<and>
   calls_since sample_state
       (snd (statement_Query sample_env (sample_stmt (Some record_hook)) sample_args sample_state)) =
     [CallBeforeQueryHook ''UPDATE t SET x=? WHERE id=?'' [VInt 5, VInt 1],
      CallStmtQuery (Some 1) [VSlice [VInt 5, VInt 1]]]"
proof -
  let ?st = "sample_stmt (Some record_hook)"
  let ?q = "''UPDATE t SET x=? WHERE id=?''"
  have hook: "BeforeQueryHook (s_driver ?st) = Some record_hook"
    by (simp add: sample_stmt_def sample_driver_def)
  note inst = hook_once_before_driver [OF hook sample_allocated, of sample_env]
  have "calls_since sample_state (snd (statement_Exec sample_env ?st sample_args sample_state)) =
          [CallBeforeQueryHook (s_query ?st) (load (heap sample_state) sample_args),
           CallStmtExec (s_stmt ?st) [VSlice (load (heap sample_state) sample_args)]]"
    and "calls_since sample_state (snd (statement_Query sample_env ?st sample_args sample_state)) =
          [CallBeforeQueryHook (s_query ?st) (load (heap sample_state) sample_args),
           CallStmtQuery (s_stmt ?st) [VSlice (load (heap sample_state) sample_args)]]"
    using inst by blast+
  then have calls:
    "calls_since sample_state (snd (statement_Exec sample_env ?st sample_args sample_state)) =
       [CallBeforeQueryHook ?q [VInt 5, VInt 1], CallStmtExec (Some 1) [VSlice [VInt 5, VInt 1]]]"
    "calls_since sample_state (snd (statement_Query sample_env ?st sample_args sample_state)) =
       [CallBeforeQueryHook ?q [VInt 5, VInt 1], CallStmtQuery (Some 1) [VSlice [VInt 5, VInt 1]]]"
    by (simp_all add: sample_load sample_stmt_def)
  have "(fst (statement_Exec sample_env ?st sample_args sample_state),
         world (snd (statement_Exec sample_env ?st sample_args sample_state))) =
          Stmt_Exec sample_env (s_stmt ?st) [VSlice (load (heap sample_state) sample_args)]
            (record_hook (s_query ?st) (load (heap sample_state) sample_args)
               (world sample_state))"
    using inst by blast
  moreover have "Stmt_Exec sample_env (s_stmt ?st)
      [VSlice (load (heap sample_state) sample_args)]
      (record_hook (s_query ?st) (load (heap sample_state) sample_args) (world sample_state)) =
      ((None, Some (Error ''unsupported type []interface {}, a slice of interface'')),
       [(?q, [VInt 5, VInt 1])])"
    unfolding sample_load
    by (simp add: sample_stmt_def sample_env_def record_hook_def sample_state_def)
  ultimately have "world (snd (statement_Exec sample_env ?st sample_args sample_state)) =
          [(?q, [VInt 5, VInt 1])]"
    by simp
  with calls show ?thesis
    by simp
qed

text \<open>
  C4. The claim is that the argument values reach the proxied driver as the caller
  passed them. \<^verbatim>\<open>Exec\<close> called with the two values 5 and 1 and no hook calls the
  proxied \<^verbatim>\<open>stmt.Exec\<close> with one argument, a slice holding 5 and 1, and that driver
  refuses it.
\<close>

theorem Exec_forwards_one_slice:
  "load (heap sample_state) sample_args = [VInt 5, VInt 1] \<and>
   calls_since sample_state
       (snd (statement_Exec sample_env (sample_stmt None) sample_args sample_state)) =
     [CallStmtExec (Some 1) [VSlice [VInt 5, VInt 1]]] \<and>
   fst (statement_Exec sample_env (sample_stmt None) sample_args sample_state) =
     (None, Some (Error ''unsupported type []interface {}, a slice of interface''))"
proof -
  have hook: "BeforeQueryHook (s_driver (sample_stmt None)) = None"
    by (simp add: sample_stmt_def sample_driver_def)
  have "calls_since sample_state
          (snd (statement_Exec sample_env (sample_stmt None) sample_args sample_state)) =
          [CallStmtExec (Some 1) [VSlice [VInt 5, VInt 1]]]"
    using Exec_calls_without_hook [OF hook sample_allocated, of sample_env]
    by (simp add: sample_load sample_stmt_def)
  moreover have "fst (statement_Exec sample_env (sample_stmt None) sample_args sample_state) =
      (None, Some (Error ''unsupported type []interface {}, a slice of interface''))"
    using Exec_result [OF sample_allocated, of sample_env "sample_stmt None"]
    by (simp add: sample_load sample_env_def)
  ultimately show ?thesis
    by (simp add: sample_load)
qed

text \<open>
  C5, as stated, fails at \<^verbatim>\<open>Columns\<close>: the error of the proxied \<^verbatim>\<open>rows.Columns\<close>
  is not returned to the caller, \<^verbatim>\<open>Columns\<close> panics with it.
\<close>

theorem Columns_error_not_returned:
  "fst (Rows_Columns failing_env (r_rows sample_rows) (world sample_state)) =
     ([], Some (Error ''Rows are closed'')) \<and>
   fst (resultRows_Columns failing_env sample_rows sample_state) =
     Panic (Error ''Rows are closed'')"
  by (simp add: resultRows_Columns_def call_alt failing_env_def case_prod_beta)

text \<open>
  C5, amended. \<^verbatim>\<open>Open\<close>, \<^verbatim>\<open>Prepare\<close>, \<^verbatim>\<open>Begin\<close>, \<^verbatim>\<open>Exec\<close>, \<^verbatim>\<open>Query\<close> and
  the three \<^verbatim>\<open>Close\<close> methods return the error of the proxied call (for
  \<^verbatim>\<open>Prepare\<close>: of the pre-prepare hook, when it fails) unchanged; \<^verbatim>\<open>Next\<close>, when a
  row is available, returns the error of the proxied \<^verbatim>\<open>Scan\<close> unchanged;
  \<^verbatim>\<open>Columns\<close> has no error result and panics with the proxied error.
\<close>

theorem errors_passed_unchanged:
  "snd (fst (Driver_Open E d dataSource s)) =
     snd (fst (sql_Open E (ProxiedDriverName d) dataSource (world s))) \<and>
   (BeforePrepareHook (c_driver c) = Some hook \<and> hook query (world s) = ((q1, Some e), w1)
      \<longrightarrow> snd (fst (connection_Prepare E c query s)) = Some e) \<and>
   (BeforePrepareHook (c_driver c) = Some hook \<and> hook query (world s) = ((q1, None), w1)
      \<longrightarrow> snd (fst (connection_Prepare E c query s)) =
            snd (fst (DB_Prepare E (c_db c) q1 w1))) \<and>
   (BeforePrepareHook (c_driver c) = None
      \<longrightarrow> snd (fst (connection_Prepare E c query s)) =
            snd (fst (DB_Prepare E (c_db c) query (world s)))) \<and>
   fst (connection_Close E c s) = fst (DB_Close E (c_db c) (world s)) \<and>
   fst (connection_Begin E c s) = fst (DB_Begin E (c_db c) (world s)) \<and>
   fst (statement_Close E st s) = fst (Stmt_Close E (s_stmt st) (world s)) \<and>
   (ptr vals + len vals \<le> brk s
      \<longrightarrow> fst (statement_Exec E st vals s) =
            fst (Stmt_Exec E (s_stmt st) [VSlice (load (heap s) vals)]
                   (world (Driver_execBeforeQueryHook (s_driver st) (s_query st) vals s)))) \<and>
   (ptr vals + len vals \<le> brk s
      \<longrightarrow> snd (fst (statement_Query E st vals s)) =
            snd (fst (Stmt_Query E (s_stmt st) [VSlice (load (heap s) vals)]
                   (world (Driver_execBeforeQueryHook (s_driver st) (s_query st) vals s))))) \<and>
   fst (resultRows_Close E r s) = fst (Rows_Close E (r_rows r) (world s)) \<and>
   (Rows_Columns E (r_rows r) (world s) = ((cols, Some e), w1)
      \<longrightarrow> fst (resultRows_Columns E r s) = Panic e) \<and>
   (ptr dest + len dest \<le> brk s \<and> Rows_Next E (r_rows r) (world s) = (True, w1)
      \<longrightarrow> fst (resultRows_Next E r dest s) =
            fst (fst (Rows_Scan E (r_rows r) (load (heap s) dest) w1)))"
proof -
  have open_: "snd (fst (Driver_Open E d dataSource s)) =
      snd (fst (sql_Open E (ProxiedDriverName d) dataSource (world s)))"
    by (rule Open_result)
  have hook_fails:
    "BeforePrepareHook (c_driver c) = Some hook \<and> hook query (world s) = ((q1, Some e), w1)
       \<longrightarrow> snd (fst (connection_Prepare E c query s)) = Some e"
    by (clarify, erule (1) Prepare_hook_fails)
  have hook_ok:
    "BeforePrepareHook (c_driver c) = Some hook \<and> hook query (world s) = ((q1, None), w1)
       \<longrightarrow> snd (fst (connection_Prepare E c query s)) =
             snd (fst (DB_Prepare E (c_db c) q1 w1))"
    by (clarify, erule (1) Prepare_hook_ok)
  have no_hook:
    "BeforePrepareHook (c_driver c) = None
       \<longrightarrow> snd (fst (connection_Prepare E c query s)) =
             snd (fst (DB_Prepare E (c_db c) query (world s)))"
    by (clarify, simp only: Prepare_without_hook fst_conv snd_conv)
  have exec:
    "ptr vals + len vals \<le> brk s
       \<longrightarrow> fst (statement_Exec E st vals s) =
             fst (Stmt_Exec E (s_stmt st) [VSlice (load (heap s) vals)]
                    (world (Driver_execBeforeQueryHook (s_driver st) (s_query st) vals s)))"
    by (clarify, erule Exec_result)
  have query:
    "ptr vals + len vals \<le> brk s
       \<longrightarrow> snd (fst (statement_Query E st vals s)) =
             snd (fst (Stmt_Query E (s_stmt st) [VSlice (load (heap s) vals)]
                    (world (Driver_execBeforeQueryHook (s_driver st) (s_query st) vals s))))"
    by (clarify, simp only: Query_result fst_conv snd_conv)
  have columns:
    "Rows_Columns E (r_rows r) (world s) = ((cols, Some e), w1)
       \<longrightarrow> fst (resultRows_Columns E r s) = Panic e"
    by (clarify, erule Columns_panics)
  have next_:
    "ptr dest + len dest \<le> brk s \<and> Rows_Next E (r_rows r) (world s) = (True, w1)
       \<longrightarrow> fst (resultRows_Next E r dest s) =
             fst (fst (Rows_Scan E (r_rows r) (load (heap s) dest) w1))"
    by (clarify, erule (1) Next_with_row(1))
  show ?thesis
    by (intro conjI)
      (rule open_ hook_fails hook_ok no_hook exec query columns next_ Close_results)+
qed

theorem errors_passed_unchanged_witness:
  "snd (fst (connection_Prepare failing_env (sample_conn (Some reject_hook))
               ''DROP TABLE t'' sample_state)) = Some (Error ''query rejected'') \<and>
   fst (statement_Exec failing_env (sample_stmt None) sample_args sample_state) =
     (None, Some (Error ''exec failed'')) \<and>
   fst (resultRows_Columns failing_env sample_rows sample_state) =
     Panic (Error ''Rows are closed'') \<and>
   fst (resultRows_Next sample_env sample_rows sample_args sample_state) =
     Some (Error ''destination not a pointer'')"
proof -
  have hook: "BeforePrepareHook (c_driver (sample_conn (Some reject_hook))) = Some reject_hook \<and>
      reject_hook ''DROP TABLE t'' (world sample_state) =
        ((''DROP TABLE t'', Some (Error ''query rejected'')), [])"
    by (simp add: sample_conn_def sample_driver_def reject_hook_def sample_state_def)
  have "snd (fst (connection_Prepare failing_env (sample_conn (Some reject_hook))
                    ''DROP TABLE t'' sample_state)) = Some (Error ''query rejected'')"
    using hook
      errors_passed_unchanged [where E = failing_env and s = sample_state
        and c = "sample_conn (Some reject_hook)" and hook = reject_hook
        and query = "''DROP TABLE t''" and ?q1.0 = "''DROP TABLE t''"
        and e = "Error ''query rejected''" and ?w1.0 = "[]"]
    by blast
  moreover have cols: "Rows_Columns failing_env (r_rows sample_rows) (world sample_state) =
      (([], Some (Error ''Rows are closed'')), [])"
    by (simp add: failing_env_def sample_state_def)
  have "fst (statement_Exec failing_env (sample_stmt None) sample_args sample_state) =
          fst (Stmt_Exec failing_env (s_stmt (sample_stmt None))
                 [VSlice (load (heap sample_state) sample_args)]
                 (world (Driver_execBeforeQueryHook (s_driver (sample_stmt None))
                    (s_query (sample_stmt None)) sample_args sample_state))) \<and>
        fst (resultRows_Columns failing_env sample_rows sample_state) =
          Panic (Error ''Rows are closed'')"
    using cols sample_allocated
      errors_passed_unchanged [where E = failing_env and s = sample_state
        and st = "sample_stmt None" and vals = sample_args and r = sample_rows
        and cols = "[]" and e = "Error ''Rows are closed''" and ?w1.0 = "[]"]
    by blast
  then have "fst (statement_Exec failing_env (sample_stmt None) sample_args sample_state) =
          (None, Some (Error ''exec failed'')) \<and>
        fst (resultRows_Columns failing_env sample_rows sample_state) =
          Panic (Error ''Rows are closed'')"
    by (simp add: failing_env_def)
  moreover have nxt: "ptr sample_args + len sample_args \<le> brk sample_state \<and>
      Rows_Next sample_env (r_rows sample_rows) (world sample_state) = (True, [])"
    using sample_allocated by (simp add: sample_env_def sample_state_def sample_args_def)
  have "fst (resultRows_Next sample_env sample_rows sample_args sample_state) =
          fst (fst (Rows_Scan sample_env (r_rows sample_rows)
                      (load (heap sample_state) sample_args) []))"
    using nxt
      errors_passed_unchanged [where E = sample_env and s = sample_state
        and r = sample_rows and dest = sample_args and ?w1.0 = "[]"]
    by blast
  then have "fst (resultRows_Next sample_env sample_rows sample_args sample_state) =
          Some (Error ''destination not a pointer'')"
    by (simp add: sample_load sample_env_def)
  ultimately show ?thesis
    by blast
qed

text \<open>
  C6. The claim is that \<^verbatim>\<open>Next\<close> returns the end-of-data signal exactly when the
  proxied cursor is exhausted, and the cursor's error when one occurs. On a cursor
  whose \<^verbatim>\<open>Next\<close> has stopped on an error (it returns false and \<^verbatim>\<open>Err\<close> reports
  the error), \<^verbatim>\<open>Next\<close> returns \<^verbatim>\<open>io.EOF\<close>.
\<close>

theorem Next_EOF_on_cursor_error:
  "fst (Rows_Next failing_env (r_rows sample_rows) (world sample_state)) = False \<and>
   Rows_Err failing_env (r_rows sample_rows)
     (snd (Rows_Next failing_env (r_rows sample_rows) (world sample_state))) =
     Some (Error ''connection reset'') \<and>
   fst (resultRows_Next failing_env sample_rows sample_args sample_state) = Some EOF"
proof -
  have stop: "fst (Rows_Next failing_env (r_rows sample_rows) (world sample_state)) = False"
    by (simp add: failing_env_def)
  show ?thesis
    using stop Next_without_row [OF stop, of sample_args]
    by (simp add: failing_env_def)
qed

text \<open>
  C7. The claim is that, with no hooks, preparing and executing through the proxy
  gives the result of preparing and executing against the proxied driver directly.
  With the two arguments 5 and 1 the direct call succeeds on the sample driver and
  the call through the proxy fails, because the proxy passes one slice.
\<close>

theorem proxy_differs_from_direct:
  "fst (direct_Prepare_Exec sample_env (Some 0) ''UPDATE t SET x=? WHERE id=?''
          [VInt 5, VInt 1] (world sample_state)) = (Some 2, None) \<and>
   fst (proxy_Prepare_Exec sample_env (sample_conn None) ''UPDATE t SET x=? WHERE id=?''
          sample_args sample_state) =
     (None, Some (Error ''unsupported type []interface {}, a slice of interface''))"
proof -
  let ?q = "''UPDATE t SET x=? WHERE id=?''"
  let ?s1 = "sample_state\<lparr>world := [], trace := trace sample_state @ [CallDBPrepare (Some 0) ?q]\<rparr>"
  have direct: "fst (direct_Prepare_Exec sample_env (Some 0) ?q [VInt 5, VInt 1]
                  (world sample_state)) = (Some 2, None)"
    by (simp add: direct_Prepare_Exec_def sample_env_def)
  have hook: "BeforePrepareHook (c_driver (sample_conn None)) = None"
    by (simp add: sample_conn_def sample_driver_def)
  have prep: "connection_Prepare sample_env (sample_conn None) ?q sample_state =
                ((Some (sample_stmt None), None), ?s1)"
    unfolding Prepare_without_hook [OF hook, of sample_env ?q sample_state]
    by (simp add: sample_env_def sample_conn_def sample_stmt_def sample_state_def)
  have alloc: "ptr sample_args + len sample_args \<le> brk ?s1"
    using sample_allocated by simp
  have ld: "load (heap ?s1) sample_args = [VInt 5, VInt 1]"
    using sample_load by simp
  have "fst (statement_Exec sample_env (sample_stmt None) sample_args ?s1) =
          (None, Some (Error ''unsupported type []interface {}, a slice of interface''))"
    using Exec_result [OF alloc, of sample_env "sample_stmt None"]
    by (simp add: ld sample_env_def)
  then have "fst (proxy_Prepare_Exec sample_env (sample_conn None) ?q sample_args
                    sample_state) =
          (None, Some (Error ''unsupported type []interface {}, a slice of interface''))"
    by (simp add: proxy_Prepare_Exec_def prep)
  with direct show ?thesis
    by simp
qed

text \<open>
  C8. When the pre-prepare hook is absent or succeeds and the proxied
  \<^verbatim>\<open>db.Prepare\<close> returns an error, \<^verbatim>\<open>Prepare\<close> returns that error together
  with a statement wrapper (not \<^verbatim>\<open>nil\<close>) whose \<open>stmt\<close> field is the handle
  that \<^verbatim>\<open>db.Prepare\<close> returned with the error: \<^verbatim>\<open>nil\<close> in the sample.
\<close>

theorem Prepare_error_keeps_wrapper:
  assumes "(BeforePrepareHook (c_driver c) = None \<and> query' = query \<and> w1 = world s) \<or>
           (\<exists>hook. BeforePrepareHook (c_driver c) = Some hook \<and>
                   hook query (world s) = ((query', None), w1))"
    and "DB_Prepare E (c_db c) query' w1 = ((stmt, Some e), w2)"
  shows "fst (connection_Prepare E c query s) =
           (Some \<lparr>s_driver = c_driver c, s_stmt = stmt, s_query = query'\<rparr>, Some e)"
  using assms
  by (auto simp: connection_Prepare_def call_def split: prod.splits)

theorem Prepare_error_keeps_wrapper_witness:
  "fst (connection_Prepare sample_env (sample_conn None) [] sample_state) =
     (Some \<lparr>s_driver = sample_driver None None, s_stmt = None, s_query = []\<rparr>,
      Some (Error ''empty query''))"
proof -
  have pre: "(BeforePrepareHook (c_driver (sample_conn None)) = None \<and> [] = ([]::string) \<and>
               [] = world sample_state) \<or>
             (\<exists>hook. BeforePrepareHook (c_driver (sample_conn None)) = Some hook \<and>
                hook [] (world sample_state) = (([], None), []))"
    by (simp add: sample_conn_def sample_driver_def sample_state_def)
  have run: "DB_Prepare sample_env (c_db (sample_conn None)) [] [] =
               ((None, Some (Error ''empty query'')), [])"
    by (simp add: sample_env_def)
  show ?thesis
    using Prepare_error_keeps_wrapper [OF pre run] by (simp add: sample_conn_def)
qed

text \<open>
  C9, as stated, fails on a destination buffer whose first element is a pointer to
  its own second cell (\<^verbatim>\<open>dest[0] = &dest[1]\<close>): a row is available, the proxied
  \<^verbatim>\<open>Scan\<close> stores the first column through that pointer, and the buffer that held
  the two pointers holds the pointer and the scanned value 5 when \<^verbatim>\<open>Next\<close> returns.
\<close>

theorem Next_changes_dest_through_own_pointer:
  "fst (Rows_Next sample_env (r_rows sample_rows) (world alias_state)) = True \<and>
   load (heap alias_state) sample_args = [VPtr 1, VPtr 2] \<and>
   load (heap (snd (resultRows_Next sample_env sample_rows sample_args alias_state)))
     sample_args = [VPtr 1, VInt 5]"
proof -
  let ?s' = "snd (resultRows_Next sample_env sample_rows sample_args alias_state)"
  have row: "Rows_Next sample_env (r_rows sample_rows) (world alias_state) = (True, [])"
    by (simp add: sample_env_def alias_state_def)
  have scan: "snd (fst (Rows_Scan sample_env (r_rows sample_rows) [VPtr 1, VPtr 2] [])) =
                [(1, VInt 5), (2, VInt 1)]"
    by (simp add: sample_env_def)
  have stores: "heap ?s' a =
      store_through [VPtr 1, VPtr 2] [(1, VInt 5), (2, VInt 1)] (heap alias_state) a"
    if "a < brk alias_state" for a
    using Next_with_row(3) [OF alias_allocated row that]
    by (simp only: alias_load scan)
  have "heap ?s' 0 = VPtr 1"
    using stores [of 0] by (simp add: alias_state_def)
  moreover have "heap ?s' 1 = VInt 5"
    using stores [of 1] by (simp add: alias_state_def)
  ultimately have "load (heap ?s') sample_args = [VPtr 1, VInt 5]"
    by (simp add: load_def cells_def sample_args_def)
  then show ?thesis
    by (simp add: row alias_load)
qed

text \<open>
  C9, amended. When a row is available, \<^verbatim>\<open>Next\<close> calls the proxied \<^verbatim>\<open>Scan\<close> with
  by-value copies of the destination buffer's elements: \<^verbatim>\<open>castValues\<close> allocates as
  many fresh cells as the buffer is long, and each fresh cell holds the value of the
  buffer's element (unless \<^verbatim>\<open>Scan\<close> was handed a pointer to that fresh cell). The
  memory that existed before the call changes only by what \<^verbatim>\<open>Scan\<close> stores through
  pointers found among the buffer's elements; so the destination buffer is left
  unchanged, unless one of its own elements is a pointer to one of its own cells.
\<close>

theorem Next_leaves_dest_unchanged:
  assumes "ptr dest + len dest \<le> brk s"
    and "Rows_Next E (r_rows r) (world s) = (True, w1)"
  shows "calls_since s (snd (resultRows_Next E r dest s)) =
           [CallRowsNext (r_rows r), CallRowsScan (r_rows r) (load (heap s) dest)] \<and>
         brk (snd (resultRows_Next E r dest s)) = brk s + len dest \<and>
         (\<forall>i<len dest. VPtr (brk s + i) \<notin> set (load (heap s) dest) \<longrightarrow>
            heap (snd (resultRows_Next E r dest s)) (brk s + i) = heap s (ptr dest + i)) \<and>
         (\<forall>a<brk s.
            heap (snd (resultRows_Next E r dest s)) a =
              store_through (load (heap s) dest)
                (snd (fst (Rows_Scan E (r_rows r) (load (heap s) dest) w1))) (heap s) a) \<and>
         ((\<forall>a\<in>set (cells dest). VPtr a \<notin> set (load (heap s) dest)) \<longrightarrow>
            load (heap (snd (resultRows_Next E r dest s))) dest = load (heap s) dest)"
proof (intro conjI allI impI)
  show "calls_since s (snd (resultRows_Next E r dest s)) =
          [CallRowsNext (r_rows r), CallRowsScan (r_rows r) (load (heap s) dest)]"
    by (rule Next_with_row(2) [OF assms])
  show "brk (snd (resultRows_Next E r dest s)) = brk s + len dest"
    by (rule Next_with_row(4) [OF assms])
  show "heap (snd (resultRows_Next E r dest s)) (brk s + i) = heap s (ptr dest + i)"
    if "i < len dest" and "VPtr (brk s + i) \<notin> set (load (heap s) dest)" for i
    by (rule Next_with_row(5) [OF assms that])
  show "heap (snd (resultRows_Next E r dest s)) a =
          store_through (load (heap s) dest)
            (snd (fst (Rows_Scan E (r_rows r) (load (heap s) dest) w1))) (heap s) a"
    if "a < brk s" for a
    by (rule Next_with_row(3) [OF assms that])
  show "load (heap (snd (resultRows_Next E r dest s))) dest = load (heap s) dest"
    if no_alias: "\<forall>a\<in>set (cells dest). VPtr a \<notin> set (load (heap s) dest)"
  proof -
    have "heap (snd (resultRows_Next E r dest s)) a = heap s a" if "a \<in> set (cells dest)" for a
    proof -
      have "a < brk s"
        using that assms(1) by (simp add: cells_def)
      then have "heap (snd (resultRows_Next E r dest s)) a =
          store_through (load (heap s) dest)
            (snd (fst (Rows_Scan E (r_rows r) (load (heap s) dest) w1))) (heap s) a"
        by (rule Next_with_row(3) [OF assms])
      also have "\<dots> = heap s a"
        using no_alias that by (simp add: store_through_frame)
      finally show ?thesis .
    qed
    then show ?thesis
      by (simp add: load_def)
  qed
qed

theorem Next_leaves_dest_unchanged_witness:
  "load (heap (snd (resultRows_Next sample_env sample_rows sample_args pointer_state)))
     sample_args = [VPtr 2, VPtr 3] \<and>
   calls_since pointer_state
     (snd (resultRows_Next sample_env sample_rows sample_args pointer_state)) =
     [CallRowsNext (Some 0), CallRowsScan (Some 0) [VPtr 2, VPtr 3]] \<and>
   brk (snd (resultRows_Next sample_env sample_rows sample_args pointer_state)) = 6 \<and>
   heap (snd (resultRows_Next sample_env sample_rows sample_args pointer_state)) 4 = VPtr 2 \<and>
   heap (snd (resultRows_Next sample_env sample_rows sample_args pointer_state)) 5 = VPtr 3 \<and>
   heap (snd (resultRows_Next sample_env sample_rows sample_args pointer_state)) 2 = VInt 5 \<and>
   heap (snd (resultRows_Next sample_env sample_rows sample_args pointer_state)) 3 = VInt 1"
proof -
  let ?s' = "snd (resultRows_Next sample_env sample_rows sample_args pointer_state)"
  have row: "Rows_Next sample_env (r_rows sample_rows) (world pointer_state) = (True, [])"
    by (simp add: sample_env_def pointer_state_def)
  have no_alias: "\<forall>a\<in>set (cells sample_args).
                    VPtr a \<notin> set (load (heap pointer_state) sample_args)"
    unfolding pointer_load by (simp add: cells_def sample_args_def)
  have scan: "snd (fst (Rows_Scan sample_env (r_rows sample_rows) [VPtr 2, VPtr 3] [])) =
                [(2, VInt 5), (3, VInt 1)]"
    by (simp add: sample_env_def)
  note inst = Next_leaves_dest_unchanged [OF pointer_allocated row]
  have "calls_since pointer_state ?s' =
          [CallRowsNext (r_rows sample_rows),
           CallRowsScan (r_rows sample_rows) (load (heap pointer_state) sample_args)]"
    using inst by blast
  then have calls: "calls_since pointer_state ?s' =
      [CallRowsNext (Some 0), CallRowsScan (Some 0) [VPtr 2, VPtr 3]]"
    by (simp add: pointer_load sample_rows_def)
  have "load (heap ?s') sample_args = load (heap pointer_state) sample_args"
    using inst no_alias by blast
  then have dest: "load (heap ?s') sample_args = [VPtr 2, VPtr 3]"
    by (simp add: pointer_load)
  have "brk ?s' = brk pointer_state + len sample_args"
    using inst by blast
  then have top: "brk ?s' = 6"
    by (simp add: pointer_state_def sample_args_def)
  have fresh: "\<forall>i<len sample_args.
      VPtr (brk pointer_state + i) \<notin> set (load (heap pointer_state) sample_args) \<longrightarrow>
      heap ?s' (brk pointer_state + i) = heap pointer_state (ptr sample_args + i)"
    using inst by blast
  have in_range: "0 < len sample_args" "1 < len sample_args"
    by (simp_all add: sample_args_def)
  have not_target:
    "VPtr (brk pointer_state + 0) \<notin> set (load (heap pointer_state) sample_args)"
    "VPtr (brk pointer_state + 1) \<notin> set (load (heap pointer_state) sample_args)"
    unfolding pointer_load by (simp_all add: pointer_state_def)
  have "heap ?s' (brk pointer_state + 0) = heap pointer_state (ptr sample_args + 0)"
    using fresh in_range(1) not_target(1) by blast
  then have copy0: "heap ?s' 4 = VPtr 2"
    by (simp add: pointer_state_def sample_args_def)
  have "heap ?s' (brk pointer_state + 1) = heap pointer_state (ptr sample_args + 1)"
    using fresh in_range(2) not_target(2) by blast
  then have copy1: "heap ?s' 5 = VPtr 3"
    by (simp add: pointer_state_def sample_args_def)
  have stores: "\<forall>a<brk pointer_state. heap ?s' a =
      store_through (load (heap pointer_state) sample_args)
        (snd (fst (Rows_Scan sample_env (r_rows sample_rows)
                     (load (heap pointer_state) sample_args) [])))
        (heap pointer_state) a"
    using inst by blast
  have "heap ?s' 2 = VInt 5"
    using stores [rule_format, of 2]
    by (simp add: pointer_load scan) (simp add: pointer_state_def)
  moreover have "heap ?s' 3 = VInt 1"
    using stores [rule_format, of 3]
    by (simp add: pointer_load scan) (simp add: pointer_state_def)
  ultimately show ?thesis
    using calls dest top copy0 copy1 by simp
qed

text \<open>
  C10. \<^verbatim>\<open>NumInput\<close> returns \<open>-1\<close> for every prepared statement, whatever its query
  text; so the argument count check of \<^verbatim>\<open>database/sql\<close> never rejects a call,
  whatever the number of arguments, and every \<^verbatim>\<open>Exec\<close> and \<^verbatim>\<open>Query\<close> of the sql
  package reaches the statement's \<^verbatim>\<open>Exec\<close> and \<^verbatim>\<open>Query\<close>.
\<close>

theorem NumInput_unknown:
  "statement_NumInput st = - 1 \<and>
   sql_count_check (statement_NumInput st) n = None \<and>
   sql_resultFromStatement E st args s = statement_Exec E st args s \<and>
   sql_rowsiFromStatement E st args s = statement_Query E st args s"
  by (simp add: statement_NumInput_def sql_count_check_def sql_resultFromStatement_def
      sql_rowsiFromStatement_def)

theorem NumInput_unknown_witness:
  "statement_NumInput (sample_stmt None) = - 1 \<and>
   sql_count_check (statement_NumInput (sample_stmt None)) 7 = None \<and>
   sql_count_check 2 7 = Some (Error (''sql: expected 2 arguments, got 7'')) \<and>
   fst (sql_resultFromStatement sample_env (sample_stmt None) sample_args sample_state) =
     fst (statement_Exec sample_env (sample_stmt None) sample_args sample_state)"
proof -
  have "show_nat 2 = ''2''" "show_nat 7 = ''7''"
    by (simp_all add: show_nat.simps)
  then have known: "sql_count_check 2 7 = Some (Error (''sql: expected 2 arguments, got 7''))"
    by (simp add: sql_count_check_def show_int_def)
  have "statement_NumInput (sample_stmt None) = - 1"
    and "sql_count_check (statement_NumInput (sample_stmt None)) 7 = None"
    and "sql_resultFromStatement sample_env (sample_stmt None) sample_args sample_state =
           statement_Exec sample_env (sample_stmt None) sample_args sample_state"
    using NumInput_unknown [of "sample_stmt None" 7 sample_env sample_args sample_state]
    by blast+
  with known show ?thesis
    by (intro conjI) simp_all
qed

end
